theory Spec2Isabelle
  imports Complex_Main "HOL-Library.Word" "HOL-Library.Sublist"
begin

section \<open>JavaScript values used by canvas.js\<close>

text \<open>
  A JavaScript number is a finite value, NaN or one of the two infinities. Finite values
  are modelled as reals: rounding to the nearest double, overflow of a finite result and
  the sign of zero are left out. The one place where this shows is \<open>Math.round\<close> of a
  product: where the double product falls just short of a half that the exact product
  reaches (\<open>50 * 1.15\<close> is \<open>57.49999999999999\<close> in doubles), the code's pixel is one less
  than the model's. The theorems below do not depend on such a value.
\<close>

datatype jsnum = Fin real | NaN | PosInf | NegInf

text \<open>
  The values an option field can hold: absent (\<open>undefined\<close>), \<open>null\<close>, a boolean or a
  number. The documented option fields read by \<open>clamp01\<close> and by the arithmetic of
  \<open>render\<close> are numbers; strings and objects are outside the model.
\<close>

datatype jsval = Undefined | Null | Bool bool | Num jsnum

text \<open>\<open>Number(v)\<close>, the ToNumber conversion.\<close>

fun Number :: "jsval \<Rightarrow> jsnum" where
  "Number Undefined = NaN"
| "Number Null = Fin 0"
| "Number (Bool b) = Fin (if b then 1 else 0)"
| "Number (Num n) = n"

text \<open>\<open>a ?? b\<close>: the right operand only when the left one is \<open>null\<close> or \<open>undefined\<close>.\<close>

fun nullish :: "jsval \<Rightarrow> jsval \<Rightarrow> jsval" where
  "nullish Undefined d = d"
| "nullish Null d = d"
| "nullish v d = v"

fun jsneg :: "jsnum \<Rightarrow> jsnum" where
  "jsneg (Fin a) = Fin (- a)"
| "jsneg NaN = NaN"
| "jsneg PosInf = NegInf"
| "jsneg NegInf = PosInf"

fun jsadd :: "jsnum \<Rightarrow> jsnum \<Rightarrow> jsnum" where
  "jsadd (Fin a) (Fin b) = Fin (a + b)"
| "jsadd NaN _ = NaN"
| "jsadd _ NaN = NaN"
| "jsadd PosInf NegInf = NaN"
| "jsadd NegInf PosInf = NaN"
| "jsadd PosInf _ = PosInf"
| "jsadd _ PosInf = PosInf"
| "jsadd NegInf _ = NegInf"
| "jsadd _ NegInf = NegInf"

definition jssub :: "jsnum \<Rightarrow> jsnum \<Rightarrow> jsnum" where
  "jssub a b = jsadd a (jsneg b)"

text \<open>The sign of a number that is not NaN: \<open>-1\<close>, \<open>0\<close> or \<open>1\<close>.\<close>

fun jssgn :: "jsnum \<Rightarrow> int" where
  "jssgn (Fin a) = (if a < 0 then - 1 else if a = 0 then 0 else 1)"
| "jssgn PosInf = 1"
| "jssgn NegInf = - 1"
| "jssgn NaN = 0"

fun jsmul :: "jsnum \<Rightarrow> jsnum \<Rightarrow> jsnum" where
  "jsmul (Fin a) (Fin b) = Fin (a * b)"
| "jsmul NaN _ = NaN"
| "jsmul _ NaN = NaN"
| "jsmul a b =
     (if jssgn a * jssgn b = 0 then NaN
      else if 0 < jssgn a * jssgn b then PosInf else NegInf)"

text \<open>\<open>Math.max(a, b)\<close> on two numbers: NaN when either is NaN.\<close>

fun jsmax :: "jsnum \<Rightarrow> jsnum \<Rightarrow> jsnum" where
  "jsmax (Fin a) (Fin b) = Fin (max a b)"
| "jsmax NaN _ = NaN"
| "jsmax _ NaN = NaN"
| "jsmax PosInf _ = PosInf"
| "jsmax _ PosInf = PosInf"
| "jsmax NegInf b = b"
| "jsmax a NegInf = a"

text \<open>\<open>Math.round\<close> of a finite real: the nearest integer, halves upwards.\<close>

definition round_half_up :: "real \<Rightarrow> int" where
  "round_half_up x = \<lfloor>x + 1 / 2\<rfloor>"

fun jsround :: "jsnum \<Rightarrow> jsnum" where
  "jsround (Fin a) = Fin (of_int (round_half_up a))"
| "jsround n = n"

section \<open>clamp01 and lerp\<close>

text \<open>
  \<^verbatim>\<open>function clamp01(v) { v = Number(v);
    if (!Number.isFinite(v)) return 0;
    return Math.max(0, Math.min(1, v)); }\<close>
  Both return statements give a finite number, so the result is a real.
\<close>

definition clamp01 :: "jsval \<Rightarrow> real" where
  "clamp01 v = (case Number v of Fin r \<Rightarrow> max 0 (min 1 r) | _ \<Rightarrow> 0)"

text \<open>
  \<open>lerp(a, b, t) = a + (b - a) * t\<close>. Every call in canvas.js passes \<open>0\<close>, a canvas
  dimension and a result of \<open>clamp01\<close>: three finite numbers.
\<close>

definition lerp :: "real \<Rightarrow> real \<Rightarrow> real \<Rightarrow> real" where
  "lerp a b t = a + (b - a) * t"

section \<open>Strings\<close>

text \<open>
  A JavaScript string is a sequence of UTF-16 code units; \<open>length\<close> counts code units.
\<close>

type_synonym jsstring = "16 word list"

text \<open>
  The characters matched by \<open>\s\<close> and removed by \<open>trimStart\<close> and \<open>trimEnd\<close>: the
  WhiteSpace and LineTerminator code points of ECMAScript, all of them in the basic plane.
\<close>

definition isWhiteSpace :: "16 word \<Rightarrow> bool" where
  "isWhiteSpace c \<longleftrightarrow>
     c = 0x09 \<or> c = 0x0A \<or> c = 0x0B \<or> c = 0x0C \<or> c = 0x0D \<or> c = 0x20 \<or> c = 0xA0 \<or>
     c = 0x1680 \<or> (0x2000 \<le> c \<and> c \<le> 0x200A) \<or> c = 0x2028 \<or> c = 0x2029 \<or>
     c = 0x202F \<or> c = 0x205F \<or> c = 0x3000 \<or> c = 0xFEFF"

definition trimStart :: "jsstring \<Rightarrow> jsstring" where
  "trimStart s = dropWhile isWhiteSpace s"

definition trimEnd :: "jsstring \<Rightarrow> jsstring" where
  "trimEnd s = rev (dropWhile isWhiteSpace (rev s))"

text \<open>\<open>s.replace(/\r\n/g, "\n")\<close>: every CR LF pair, left to right, becomes LF.\<close>

fun replaceCRLF :: "jsstring \<Rightarrow> jsstring" where
  "replaceCRLF (c # d # cs) =
     (if c = 0x0D \<and> d = 0x0A then 0x0A # replaceCRLF cs else c # replaceCRLF (d # cs))"
| "replaceCRLF cs = cs"

text \<open>\<open>s.split(sep)\<close> for a one-unit separator; the empty string gives one empty piece.\<close>

fun splitOn :: "16 word \<Rightarrow> jsstring \<Rightarrow> jsstring list" where
  "splitOn sep [] = [[]]"
| "splitOn sep (c # cs) =
     (if c = sep then [] # splitOn sep cs
      else (case splitOn sep cs of [] \<Rightarrow> [[c]] | p # ps \<Rightarrow> (c # p) # ps))"

text \<open>
  \<open>s.split(/(\s+)/)\<close>: the pieces between maximal whitespace runs, with the runs
  themselves (the capture group) in between. A string that starts or ends with
  whitespace gets an empty first or last piece.
\<close>

function splitWs :: "jsstring \<Rightarrow> jsstring list" where
  "splitWs s =
     (if dropWhile (\<lambda>c. \<not> isWhiteSpace c) s = [] then [takeWhile (\<lambda>c. \<not> isWhiteSpace c) s]
      else takeWhile (\<lambda>c. \<not> isWhiteSpace c) s
         # takeWhile isWhiteSpace (dropWhile (\<lambda>c. \<not> isWhiteSpace c) s)
         # splitWs (dropWhile isWhiteSpace (dropWhile (\<lambda>c. \<not> isWhiteSpace c) s)))"
  by pat_completeness auto

lemma length_dropWhile_ws_less:
  assumes "dropWhile (\<lambda>c. \<not> P c) s \<noteq> []"
  shows "length (dropWhile P (dropWhile (\<lambda>c. \<not> P c) s)) < length s"
proof -
  let ?r = "dropWhile (\<lambda>c. \<not> P c) s"
  from assms obtain x xs where r: "?r = x # xs" by (cases ?r) auto
  then have "P x" using hd_dropWhile [of "\<lambda>c. \<not> P c" s] by auto
  then have "dropWhile P ?r = dropWhile P xs" using r by simp
  then have "length (dropWhile P ?r) \<le> length xs" by (simp add: length_dropWhile_le)
  also have "\<dots> < length ?r" using r by simp
  also have "\<dots> \<le> length s" by (rule length_dropWhile_le)
  finally show ?thesis .
qed

termination splitWs
  by (relation "measure length") (auto intro: length_dropWhile_ws_less)

declare splitWs.simps [simp del]

text \<open>
  \<open>for (const ch of l)\<close> walks a string by code points: a high surrogate followed by a
  low surrogate is one element of two code units, every other code unit is an element of
  its own.
\<close>

definition isHighSurrogate :: "16 word \<Rightarrow> bool" where
  "isHighSurrogate c \<longleftrightarrow> 0xD800 \<le> c \<and> c \<le> 0xDBFF"

definition isLowSurrogate :: "16 word \<Rightarrow> bool" where
  "isLowSurrogate c \<longleftrightarrow> 0xDC00 \<le> c \<and> c \<le> 0xDFFF"

fun codePoints :: "jsstring \<Rightarrow> jsstring list" where
  "codePoints (c # d # cs) =
     (if isHighSurrogate c \<and> isLowSurrogate d then [c, d] # codePoints cs
      else [c] # codePoints (d # cs))"
| "codePoints [c] = [[c]]"
| "codePoints [] = []"

section \<open>wrapLines\<close>

text \<open>
  \<open>ctx.measureText(s).width\<close> is a parameter \<open>m\<close>: the width of a string under the
  font that is active when \<open>wrapLines\<close> runs. The loops are written as recursions over
  the sequence walked, with the variables the loop body assigns as the accumulator.
\<close>

type_synonym measurer = "jsstring \<Rightarrow> real"

text \<open>The loop \<open>for (const w of words)\<close> over \<open>lines\<close> and \<open>line\<close>.\<close>

fun wordLoop ::
  "measurer \<Rightarrow> real \<Rightarrow> jsstring list \<Rightarrow> jsstring list \<times> jsstring \<Rightarrow> jsstring list \<times> jsstring"
where
  "wordLoop m maxWidth [] (lines, line) = (lines, line)"
| "wordLoop m maxWidth (w # ws) (lines, line) =
     (let test = line @ w in
      if m test \<le> maxWidth \<or> length line = 0
      then wordLoop m maxWidth ws (lines, test)
      else wordLoop m maxWidth ws (lines @ [trimEnd line], trimStart w))"

text \<open>The loop \<open>for (const paragraph of raw)\<close> over \<open>lines\<close>.\<close>

fun paragraphLoop :: "measurer \<Rightarrow> real \<Rightarrow> jsstring list \<Rightarrow> jsstring list \<Rightarrow> jsstring list" where
  "paragraphLoop m maxWidth [] lines = lines"
| "paragraphLoop m maxWidth (paragraph # raw) lines =
     (if length paragraph = 0 then paragraphLoop m maxWidth raw (lines @ [[0x20]])
      else
        (case wordLoop m maxWidth (splitWs paragraph) (lines, []) of
          (lines', line) \<Rightarrow>
            paragraphLoop m maxWidth raw
              (if length line > 0 then lines' @ [trimEnd line] else lines')))"

text \<open>The loop \<open>for (const ch of l)\<close> over \<open>fixed\<close> and \<open>buf\<close>.\<close>

fun charLoop ::
  "measurer \<Rightarrow> real \<Rightarrow> jsstring list \<Rightarrow> jsstring list \<times> jsstring \<Rightarrow> jsstring list \<times> jsstring"
where
  "charLoop m maxWidth [] (fixed, buf) = (fixed, buf)"
| "charLoop m maxWidth (ch # chs) (fixed, buf) =
     (let test = buf @ ch in
      if m test \<le> maxWidth \<or> length buf = 0
      then charLoop m maxWidth chs (fixed, test)
      else charLoop m maxWidth chs (fixed @ [buf], ch))"

text \<open>The loop \<open>for (const l of lines)\<close> over \<open>fixed\<close>.\<close>

fun fixLoop :: "measurer \<Rightarrow> real \<Rightarrow> jsstring list \<Rightarrow> jsstring list \<Rightarrow> jsstring list" where
  "fixLoop m maxWidth [] fixed = fixed"
| "fixLoop m maxWidth (l # ls) fixed =
     (if m l \<le> maxWidth then fixLoop m maxWidth ls (fixed @ [l])
      else
        (case charLoop m maxWidth (codePoints l) (fixed, []) of
          (fixed', buf) \<Rightarrow>
            fixLoop m maxWidth ls (if length buf > 0 then fixed' @ [buf] else fixed')))"

text \<open>\<open>(text ?? "").replace(/\r\n/g, "\n").split("\n")\<close>, the value of \<open>raw\<close>.\<close>

definition paragraphsOf :: "jsstring option \<Rightarrow> jsstring list" where
  "paragraphsOf text = splitOn 0x0A (replaceCRLF (case text of None \<Rightarrow> [] | Some t \<Rightarrow> t))"

text \<open>The body of \<open>wrapLines\<close> after \<open>raw\<close> is computed: the two passes and the final map.\<close>

definition wrapParagraphs :: "measurer \<Rightarrow> jsstring list \<Rightarrow> real \<Rightarrow> jsstring list" where
  "wrapParagraphs m raw maxWidth =
     (let lines = paragraphLoop m maxWidth raw [];
          fixed = fixLoop m maxWidth lines []
      in map (\<lambda>l. if l = [] then [0x20] else l) fixed)"

definition wrapLines :: "measurer \<Rightarrow> jsstring option \<Rightarrow> real \<Rightarrow> jsstring list" where
  "wrapLines m text maxWidth = wrapParagraphs m (paragraphsOf text) maxWidth"

section \<open>RenderState, the page and the platform\<close>

text \<open>
  An image element: its identity, its natural size and the size its \<open>width\<close> and
  \<open>height\<close> properties report (\<open>layoutWidth\<close>, \<open>layoutHeight\<close>).
\<close>

record image =
  imageId :: nat
  naturalWidth :: nat
  naturalHeight :: nat
  layoutWidth :: nat
  layoutHeight :: nat

text \<open>The module variable \<open>_state\<close>. An object URL is a number; \<open>None\<close> is \<open>null\<close>.\<close>

record state =
  bgImg :: "image option"
  bgObjectUrl :: "nat option"
  fontFamily :: "jsstring option"
  customFontFamily :: "jsstring option"
  separatorImg :: "image option"

definition initialState :: state where
  "initialState =
     \<lparr>bgImg = None, bgObjectUrl = None, fontFamily = None, customFontFamily = None,
      separatorImg = None\<rparr>"

text \<open>A canvas element; \<open>has2d\<close> tells whether \<open>getContext("2d")\<close> returns a context.\<close>

record canvas =
  width :: nat
  height :: nat
  has2d :: bool

text \<open>
  What the module does to object URLs and to \<open>_state.bgObjectUrl\<close>, in the order of
  the statements that do it.
\<close>

datatype event = CreateObjectURL nat | RevokeObjectURL nat | StoreBgObjectUrl "nat option"

text \<open>
  Everything the exported functions read and write: \<open>_state\<close>, the canvases of the
  document by id, \<open>document.fonts\<close>, the next object URL the browser hands out, and the
  events so far.
\<close>

record world =
  st :: state
  canvases :: "string \<Rightarrow> canvas option"
  fonts :: "jsstring list"
  nextUrl :: nat
  events :: "event list"

datatype fontResult = FontOk | LoadRejected | AddThrows

text \<open>
  The browser's answers: the image a byte sequence decodes to (\<open>None\<close> fires
  \<open>onerror\<close>), the image behind a location, how loading and registering a font ends,
  and the text widths under a font of a given size and family.
\<close>

record platform =
  decodeImage :: "8 word list \<Rightarrow> image option"
  fetchImage :: "string \<Rightarrow> image option"
  registerFont :: "8 word list \<Rightarrow> jsstring \<Rightarrow> fontResult"
  measureText :: "jsnum \<Rightarrow> jsstring \<Rightarrow> measurer"

datatype error =
  CanvasNotFound | ContextNotAvailable | ImageLoadFailed | SeparatorLoadFailed
  | FontLoadFailed | FontAddFailed

text \<open>\<open>URL.createObjectURL(blob)\<close>: a URL that was never handed out before.\<close>

definition createObjectURL :: "world \<Rightarrow> nat \<times> world" where
  "createObjectURL w =
     (nextUrl w,
      w\<lparr>nextUrl := Suc (nextUrl w), events := events w @ [CreateObjectURL (nextUrl w)]\<rparr>)"

text \<open>
  \<^verbatim>\<open>function revokeObjectUrl(url) { try { if (url) URL.revokeObjectURL(url); } catch { } }\<close>
  Nothing leaves the \<open>try\<close>, so the function has no error result.
\<close>

definition revokeObjectUrl :: "nat option \<Rightarrow> world \<Rightarrow> world" where
  "revokeObjectUrl url w =
     (case url of None \<Rightarrow> w | Some u \<Rightarrow> w\<lparr>events := events w @ [RevokeObjectURL u]\<rparr>)"

text \<open>The assignment \<open>_state.bgObjectUrl = v\<close>.\<close>

definition storeBgObjectUrl :: "nat option \<Rightarrow> world \<Rightarrow> world" where
  "storeBgObjectUrl v w =
     w\<lparr>st := (st w)\<lparr>bgObjectUrl := v\<rparr>, events := events w @ [StoreBgObjectUrl v]\<rparr>"

section \<open>The loaders\<close>

text \<open>
  An exported function returns its outcome (\<open>Inl\<close> the error thrown) and the world it
  leaves behind, which after a throw is the world at the throw.
\<close>

definition setBackgroundImageFromBytes ::
  "platform \<Rightarrow> string \<Rightarrow> 8 word list \<Rightarrow> world \<Rightarrow> (error + unit) \<times> world" where
  "setBackgroundImageFromBytes pf canvasId bytes w =
     (case canvases w canvasId of
        None \<Rightarrow> (Inl CanvasNotFound, w)
      | Some cv \<Rightarrow>
          (case createObjectURL w of
            (url, w1) \<Rightarrow>
              (case decodeImage pf bytes of
                 None \<Rightarrow> (Inl ImageLoadFailed, w1)
               | Some img \<Rightarrow>
                   (let w2 = revokeObjectUrl (bgObjectUrl (st w1)) w1;
                        w3 = storeBgObjectUrl (Some url) w2;
                        w4 = w3\<lparr>st := (st w3)\<lparr>bgImg := Some img\<rparr>\<rparr>;
                        cv' = cv\<lparr>width := (if naturalWidth img \<noteq> 0 then naturalWidth img
                                            else layoutWidth img),
                                  height := (if naturalHeight img \<noteq> 0 then naturalHeight img
                                             else layoutHeight img)\<rparr>
                    in (Inr (), w4\<lparr>canvases := (canvases w4)(canvasId \<mapsto> cv')\<rparr>)))))"

definition loadFontFromBytes ::
  "platform \<Rightarrow> 8 word list \<Rightarrow> jsstring \<Rightarrow> world \<Rightarrow> (error + unit) \<times> world" where
  "loadFontFromBytes pf fontBytes familyName w =
     (case createObjectURL w of
       (url, w1) \<Rightarrow>
         (case registerFont pf fontBytes familyName of
            LoadRejected \<Rightarrow> (Inl FontLoadFailed, w1)
          | AddThrows \<Rightarrow> (Inl FontAddFailed, w1)
          | FontOk \<Rightarrow>
              (let w2 = w1\<lparr>fonts := fonts w1 @ [familyName]\<rparr>;
                   w3 = w2\<lparr>st := (st w2)\<lparr>customFontFamily := Some familyName\<rparr>\<rparr>
               in (Inr (), revokeObjectUrl (Some url) w3))))"

definition clearCustomFont :: "world \<Rightarrow> world" where
  "clearCustomFont w = w\<lparr>st := (st w)\<lparr>customFontFamily := None\<rparr>\<rparr>"

definition loadSeparatorImage :: "platform \<Rightarrow> string \<Rightarrow> world \<Rightarrow> (error + unit) \<times> world" where
  "loadSeparatorImage pf url w =
     (case fetchImage pf url of
        None \<Rightarrow> (Inl SeparatorLoadFailed, w)
      | Some img \<Rightarrow> (Inr (), w\<lparr>st := (st w)\<lparr>separatorImg := Some img\<rparr>\<rparr>))"

definition disposeBackground :: "world \<Rightarrow> world" where
  "disposeBackground w =
     (let w1 = revokeObjectUrl (bgObjectUrl (st w)) w;
          w2 = storeBgObjectUrl None w1
      in w2\<lparr>st := (st w2)\<lparr>bgImg := None\<rparr>\<rparr>)"

text \<open>
  Reading the events back: the object URLs created and not revoked, the URLs that were
  ever stored in \<open>_state.bgObjectUrl\<close>, and the background handles still live.
\<close>

fun liveStep :: "nat set \<Rightarrow> event \<Rightarrow> nat set" where
  "liveStep s (CreateObjectURL u) = insert u s"
| "liveStep s (RevokeObjectURL u) = s - {u}"
| "liveStep s (StoreBgObjectUrl v) = s"

fun storedStep :: "nat set \<Rightarrow> event \<Rightarrow> nat set" where
  "storedStep s (StoreBgObjectUrl (Some u)) = insert u s"
| "storedStep s e = s"

definition liveUrls :: "event list \<Rightarrow> nat set" where
  "liveUrls evs = foldl liveStep {} evs"

definition storedUrls :: "event list \<Rightarrow> nat set" where
  "storedUrls evs = foldl storedStep {} evs"

definition liveBgHandles :: "event list \<Rightarrow> nat set" where
  "liveBgHandles evs = liveUrls evs \<inter> storedUrls evs"

section \<open>render\<close>

text \<open>
  The options object. A text field is \<open>None\<close> when it is \<open>null\<close> or absent; the flags
  are the booleans \<open>!!options.flag\<close>; the numeric fields are any value of \<open>jsval\<close>.
\<close>

record options =
  characterName :: "jsstring option"
  bodyText :: "jsstring option"
  nameFontSize :: jsval
  bodyFontSize :: jsval
  showName :: bool
  showLine :: bool
  withShadow :: bool
  shadowOffsetPx :: jsval
  useCustomFont :: bool
  nameX01 :: jsval
  nameY01 :: jsval
  bodyX01 :: jsval
  bodyY01 :: jsval

text \<open>
  What \<open>render\<close> does to the drawing context, in order: the properties it assigns and
  the methods it calls. \<open>SetFont size family\<close> is the assignment of the bold font string
  built from the two.
\<close>

datatype ctxop =
  ClearRect int int int int
  | DrawImage image int int int int
  | FillText jsstring jsnum jsnum
  | SetFont jsnum jsstring
  | SetTextAlign string
  | SetTextBaseline string
  | SetFillStyle string
  | SetShadowColor string
  | SetShadowBlur int
  | SetShadowOffsetX jsnum
  | SetShadowOffsetY jsnum
  | SetGlobalAlpha int
  | Save
  | Restore

text \<open>An ASCII literal as a JavaScript string.\<close>

definition lit :: "string \<Rightarrow> jsstring" where
  "lit s = map (\<lambda>c. of_nat (of_char c)) s"

text \<open>A string is truthy when it is neither absent nor empty.\<close>

definition truthy :: "jsstring option \<Rightarrow> bool" where
  "truthy s = (case s of None \<Rightarrow> False | Some t \<Rightarrow> t \<noteq> [])"

text \<open>
  \<^verbatim>\<open>(options.useCustomFont && _state.customFontFamily)
     ? _state.customFontFamily : (_state.fontFamily || "sans-serif")\<close>
\<close>

definition selectFamily :: "options \<Rightarrow> state \<Rightarrow> jsstring" where
  "selectFamily opts s =
     (if useCustomFont opts \<and> truthy (customFontFamily s)
      then (case customFontFamily s of Some f \<Rightarrow> f | None \<Rightarrow> [])
      else if truthy (fontFamily s)
      then (case fontFamily s of Some f \<Rightarrow> f | None \<Rightarrow> [])
      else lit ''sans-serif'')"

text \<open>\<open>const shadowOffset = Math.max(0, options.shadowOffsetPx ?? 2)\<close>\<close>

definition shadowOffset :: "options \<Rightarrow> jsnum" where
  "shadowOffset opts = jsmax (Fin 0) (Number (nullish (shadowOffsetPx opts) (Num (Fin 2))))"

text \<open>The inner function \<open>applyShadow\<close>, over the two variables it closes over.\<close>

definition applyShadow :: "bool \<Rightarrow> jsnum \<Rightarrow> ctxop list" where
  "applyShadow shadowOn offset =
     (if \<not> shadowOn
      then [SetShadowColor ''transparent'', SetShadowBlur 0,
            SetShadowOffsetX (Fin 0), SetShadowOffsetY (Fin 0)]
      else [SetShadowColor ''rgba(0,0,0,0.75)'', SetShadowBlur 0,
            SetShadowOffsetX offset, SetShadowOffsetY offset])"

text \<open>The block \<open>if (showName) { ... }\<close>.\<close>

definition renderName :: "options \<Rightarrow> jsstring \<Rightarrow> nat \<Rightarrow> nat \<Rightarrow> ctxop list" where
  "renderName opts family cw ch =
     (if showName opts then
        (let nameSize = jsmax (Fin 10) (Number (nullish (nameFontSize opts) (Num (Fin 56))));
             nameX01' = clamp01 (nullish (nameX01 opts) (Num (Fin (1 / 5))));
             nameY01' = clamp01 (nullish (nameY01 opts) (Num (Fin (4 / 5))));
             nameX = round_half_up (lerp 0 (real cw) nameX01');
             nameY = round_half_up (lerp 0 (real ch) nameY01')
         in [SetFont nameSize family]
            @ applyShadow (withShadow opts) (shadowOffset opts)
            @ [FillText (case characterName opts of None \<Rightarrow> [] | Some t \<Rightarrow> t)
                 (Fin (of_int nameX)) (Fin (of_int nameY))])
      else [])"

text \<open>
  The block \<open>if (options.showLine && _state.separatorImg) { ... }\<close>. The anchors are
  \<^verbatim>\<open>clamp01(options.nameX01 - 0.25 ?? 0.20)\<close> and
  \<^verbatim>\<open>clamp01(options.nameY01 + 0.025 ?? 0.80)\<close>: the subtraction and the addition bind
  tighter than \<open>??\<close>, so \<open>??\<close> is applied to their numeric result.
\<close>

definition renderLine :: "options \<Rightarrow> state \<Rightarrow> nat \<Rightarrow> nat \<Rightarrow> ctxop list" where
  "renderLine opts s cw ch =
     (if showLine opts then
        (case separatorImg s of
           None \<Rightarrow> []
         | Some img \<Rightarrow>
             (let drawWidth = 552;
                  drawHeight = 8;
                  barX01 = clamp01 (nullish (Num (jssub (Number (nameX01 opts)) (Fin (1 / 4))))
                                      (Num (Fin (1 / 5))));
                  barY01 = clamp01 (nullish (Num (jsadd (Number (nameY01 opts)) (Fin (1 / 40))))
                                      (Num (Fin (4 / 5))));
                  barX = round_half_up (lerp 0 (real cw) barX01);
                  barY = round_half_up (lerp 0 (real ch) barY01)
              in [Save, SetShadowColor ''transparent'', SetGlobalAlpha 1,
                  DrawImage img barX barY drawWidth drawHeight, Restore]))
      else [])"

text \<open>The body block, from \<open>const bodySize\<close> to the end of the drawing loop.\<close>

definition renderBody :: "platform \<Rightarrow> options \<Rightarrow> jsstring \<Rightarrow> nat \<Rightarrow> nat \<Rightarrow> ctxop list" where
  "renderBody pf opts family cw ch =
     (let maxTextWidth = real cw;
          bodySize = jsmax (Fin 10) (Number (nullish (bodyFontSize opts) (Num (Fin 50))));
          bodyText' = (case bodyText opts of None \<Rightarrow> [] | Some t \<Rightarrow> t);
          lines = wrapLines (measureText pf bodySize family) (Some bodyText') maxTextWidth;
          bodyX01' = clamp01 (nullish (bodyX01 opts) (Num (Fin (1 / 5))));
          bodyY01' = clamp01 (nullish (bodyY01 opts) (Num (Fin (4 / 5))));
          bodyAnchorX = round_half_up (lerp 0 (real cw) bodyX01');
          bodyAnchorY = round_half_up (lerp 0 (real ch) bodyY01');
          lineHeight = jsround (jsmul bodySize (Fin (23 / 20)))
      in [SetFont bodySize family]
         @ applyShadow (withShadow opts) (shadowOffset opts)
         @ map (\<lambda>(i, l). FillText l (Fin (of_int bodyAnchorX))
                  (jsadd (Fin (of_int bodyAnchorY)) (jsmul (Fin (real i)) lineHeight)))
             (enumerate 0 lines))"

definition render :: "platform \<Rightarrow> string \<Rightarrow> options \<Rightarrow> world \<Rightarrow> error + ctxop list" where
  "render pf canvasId opts w =
     (case canvases w canvasId of
        None \<Rightarrow> Inl CanvasNotFound
      | Some cv \<Rightarrow>
          if \<not> has2d cv then Inl ContextNotAvailable
          else
            (case bgImg (st w) of
               None \<Rightarrow> Inr [ClearRect 0 0 (int (width cv)) (int (height cv))]
             | Some img \<Rightarrow>
                 (let cw = width cv;
                      ch = height cv;
                      family = selectFamily opts (st w)
                  in Inr ([ClearRect 0 0 (int cw) (int ch), DrawImage img 0 0 (int cw) (int ch),
                           SetTextAlign ''center'', SetTextBaseline ''alphabetic'',
                           SetFillStyle ''white'']
                          @ renderName opts family cw ch
                          @ renderLine opts (st w) cw ch
                          @ renderBody pf opts family cw ch))))"

section \<open>Vocabulary of the properties\<close>

text \<open>The code units of a string that are not whitespace, in order.\<close>

definition nonWhitespace :: "jsstring \<Rightarrow> jsstring" where
  "nonWhitespace s = filter (\<lambda>c. \<not> isWhiteSpace c) s"


text \<open>The lines one paragraph adds in the first pass, and one line adds in the second.\<close>

definition paragraphLines :: "measurer \<Rightarrow> real \<Rightarrow> jsstring \<Rightarrow> jsstring list" where
  "paragraphLines m mw p = paragraphLoop m mw [p] []"

definition lineParts :: "measurer \<Rightarrow> real \<Rightarrow> jsstring \<Rightarrow> jsstring list" where
  "lineParts m mw l = fixLoop m mw [l] []"

text \<open>A line fits when it is within the width or is a single code point.\<close>

definition fits :: "measurer \<Rightarrow> real \<Rightarrow> jsstring \<Rightarrow> bool" where
  "fits m mw l \<longleftrightarrow> m l \<le> mw \<or> length (codePoints l) = 1"

section \<open>Example inputs\<close>

text \<open>
  A fixed-pitch font of ten pixels per code unit, a page with one canvas, three images and
  a browser that decodes two byte sequences and one location.
\<close>

definition monoWidth :: measurer where
  "monoWidth s = 10 * real (length s)"

definition exampleCanvas :: canvas where
  "exampleCanvas = \<lparr>width = 300, height = 150, has2d = True\<rparr>"

definition imageA :: image where
  "imageA = \<lparr>imageId = 1, naturalWidth = 800, naturalHeight = 600,
              layoutWidth = 800, layoutHeight = 600\<rparr>"

definition imageB :: image where
  "imageB = \<lparr>imageId = 2, naturalWidth = 1024, naturalHeight = 768,
              layoutWidth = 1024, layoutHeight = 768\<rparr>"

definition separatorImage :: image where
  "separatorImage = \<lparr>imageId = 3, naturalWidth = 552, naturalHeight = 8,
              layoutWidth = 552, layoutHeight = 8\<rparr>"

definition examplePlatform :: platform where
  "examplePlatform =
     \<lparr>decodeImage = (\<lambda>bs. if bs = [1] then Some imageA else if bs = [2] then Some imageB else None),
      fetchImage = (\<lambda>u. if u = ''line.png'' then Some separatorImage else None),
      registerFont = (\<lambda>bs f. if bs = [] then LoadRejected else FontOk),
      measureText = (\<lambda>size family. monoWidth)\<rparr>"

definition emptyWorld :: world where
  "emptyWorld =
     \<lparr>st = initialState,
      canvases = (\<lambda>i. if i = ''card'' then Some exampleCanvas else None),
      fonts = [], nextUrl = 0, events = []\<rparr>"

definition worldA :: world where
  "worldA = snd (setBackgroundImageFromBytes examplePlatform ''card'' [1] emptyWorld)"

definition worldAS :: world where
  "worldAS = snd (loadSeparatorImage examplePlatform ''line.png'' worldA)"

definition exampleOptions :: options where
  "exampleOptions =
     \<lparr>characterName = Some [0x41], bodyText = None,
      nameFontSize = Undefined, bodyFontSize = Undefined,
      showName = True, showLine = True, withShadow = True,
      shadowOffsetPx = Num (Fin (- 3)), useCustomFont = False,
      nameX01 = Undefined, nameY01 = Undefined, bodyX01 = Undefined, bodyY01 = Undefined\<rparr>"

section \<open>The loops of wrapLines, one paragraph and one line at a time\<close>

lemma wordLoop_acc:
  "wordLoop m mw ws (lines, line) =
     (lines @ fst (wordLoop m mw ws ([], line)), snd (wordLoop m mw ws ([], line)))"
proof (induction ws arbitrary: lines line)
  case Nil
  show ?case by simp
next
  case (Cons w ws)
  show ?case
  proof (cases "m (line @ w) \<le> mw \<or> length line = 0")
    case True
    then show ?thesis using Cons.IH [of lines "line @ w"] by (simp add: Let_def)
  next
    case False
    then show ?thesis
      using Cons.IH [of "lines @ [trimEnd line]" "trimStart w"]
            Cons.IH [of "[trimEnd line]" "trimStart w"]
      by (simp add: Let_def)
  qed
qed

lemma charLoop_acc:
  "charLoop m mw chs (fixed, buf) =
     (fixed @ fst (charLoop m mw chs ([], buf)), snd (charLoop m mw chs ([], buf)))"
proof (induction chs arbitrary: fixed buf)
  case Nil
  show ?case by simp
next
  case (Cons ch chs)
  show ?case
  proof (cases "m (buf @ ch) \<le> mw \<or> length buf = 0")
    case True
    then show ?thesis using Cons.IH [of fixed "buf @ ch"] by (simp add: Let_def)
  next
    case False
    then show ?thesis
      using Cons.IH [of "fixed @ [buf]" ch] Cons.IH [of "[buf]" ch]
      by (simp add: Let_def)
  qed
qed

lemma paragraphLoop_step:
  "paragraphLoop m mw (p # raw) lines = paragraphLoop m mw raw (lines @ paragraphLines m mw p)"
proof (cases "length p = 0")
  case True
  then show ?thesis by (simp add: paragraphLines_def)
next
  case False
  obtain ls l where w: "wordLoop m mw (splitWs p) ([], []) = (ls, l)" by force
  have "wordLoop m mw (splitWs p) (lines, []) = (lines @ ls, l)"
    using wordLoop_acc [of m mw "splitWs p" lines "[]"] w by simp
  then show ?thesis using False w by (simp add: paragraphLines_def)
qed

lemma paragraphLoop_concat:
  "paragraphLoop m mw raw lines = lines @ concat (map (paragraphLines m mw) raw)"
proof (induction raw arbitrary: lines)
  case Nil
  show ?case by simp
next
  case (Cons p raw)
  show ?case unfolding paragraphLoop_step Cons.IH by simp
qed

lemma fixLoop_step:
  "fixLoop m mw (l # ls) fixed = fixLoop m mw ls (fixed @ lineParts m mw l)"
proof (cases "m l \<le> mw")
  case True
  then show ?thesis by (simp add: lineParts_def)
next
  case False
  obtain fs b where c: "charLoop m mw (codePoints l) ([], []) = (fs, b)" by force
  have "charLoop m mw (codePoints l) (fixed, []) = (fixed @ fs, b)"
    using charLoop_acc [of m mw "codePoints l" fixed "[]"] c by simp
  then show ?thesis using False c by (simp add: lineParts_def)
qed

lemma fixLoop_concat:
  "fixLoop m mw ls fixed = fixed @ concat (map (lineParts m mw) ls)"
proof (induction ls arbitrary: fixed)
  case Nil
  show ?case by simp
next
  case (Cons l ls)
  show ?case unfolding fixLoop_step Cons.IH by simp
qed

lemma wrapParagraphs_eq:
  "wrapParagraphs m raw mw =
     map (\<lambda>l. if l = [] then [0x20] else l)
       (concat (map (lineParts m mw) (concat (map (paragraphLines m mw) raw))))"
  by (simp add: wrapParagraphs_def paragraphLoop_concat fixLoop_concat)

lemma wrapParagraphs_append:
  "wrapParagraphs m (ps @ qs) mw = wrapParagraphs m ps mw @ wrapParagraphs m qs mw"
  by (simp add: wrapParagraphs_eq)



section \<open>Width of the returned lines\<close>

lemma codePoints_single: "ch \<in> set (codePoints l) \<Longrightarrow> codePoints ch = [ch]"
  by (induction l rule: codePoints.induct) (auto split: if_splits)

lemma codePoints_nonempty: "ch \<in> set (codePoints l) \<Longrightarrow> ch \<noteq> []"
  by (induction l rule: codePoints.induct) (auto split: if_splits)


lemma charLoop_fits:
  assumes "\<forall>ch \<in> set chs. codePoints ch = [ch]"
    and "\<forall>x \<in> set fixed. fits m mw x" and "buf = [] \<or> fits m mw buf"
    and "charLoop m mw chs (fixed, buf) = (fixed', buf')"
  shows "(\<forall>x \<in> set fixed'. fits m mw x) \<and> (buf' = [] \<or> fits m mw buf')"
  using assms
proof (induction chs arbitrary: fixed buf)
  case Nil
  then show ?case by simp
next
  case (Cons ch chs)
  have ch: "codePoints ch = [ch]" using Cons.prems(1) by simp
  have rest: "\<forall>ch \<in> set chs. codePoints ch = [ch]" using Cons.prems(1) by simp
  show ?case
  proof (cases "m (buf @ ch) \<le> mw \<or> length buf = 0")
    case True
    then have run: "charLoop m mw chs (fixed, buf @ ch) = (fixed', buf')"
      using Cons.prems(4) by (simp add: Let_def)
    have "fits m mw (buf @ ch)" using True ch by (auto simp: fits_def)
    then have "buf @ ch = [] \<or> fits m mw (buf @ ch)" by blast
    from Cons.IH [OF rest Cons.prems(2) this run] show ?thesis .
  next
    case False
    then have run: "charLoop m mw chs (fixed @ [buf], ch) = (fixed', buf')"
      using Cons.prems(4) by (simp add: Let_def)
    have b: "fits m mw buf" using False Cons.prems(3) by auto
    have f: "\<forall>x \<in> set (fixed @ [buf]). fits m mw x" using b Cons.prems(2) by simp
    have "fits m mw ch" using ch by (simp add: fits_def)
    then have "ch = [] \<or> fits m mw ch" by blast
    from Cons.IH [OF rest f this run] show ?thesis .
  qed
qed

lemma charLoop_nonempty:
  assumes "\<forall>ch \<in> set chs. ch \<noteq> []" and "[] \<notin> set fixed"
    and "charLoop m mw chs (fixed, buf) = (fixed', buf')"
  shows "[] \<notin> set fixed'"
  using assms
proof (induction chs arbitrary: fixed buf)
  case Nil
  then show ?case by simp
next
  case (Cons ch chs)
  have rest: "\<forall>ch \<in> set chs. ch \<noteq> []" using Cons.prems(1) by simp
  show ?case
  proof (cases "m (buf @ ch) \<le> mw \<or> length buf = 0")
    case True
    then have run: "charLoop m mw chs (fixed, buf @ ch) = (fixed', buf')"
      using Cons.prems(3) by (simp add: Let_def)
    from Cons.IH [OF rest Cons.prems(2) run] show ?thesis .
  next
    case False
    then have run: "charLoop m mw chs (fixed @ [buf], ch) = (fixed', buf')"
      using Cons.prems(3) by (simp add: Let_def)
    have "[] \<notin> set (fixed @ [buf])" using False Cons.prems(2) by auto
    from Cons.IH [OF rest this run] show ?thesis .
  qed
qed

lemma lineParts_fits:
  assumes "x \<in> set (lineParts m mw l)"
  shows "fits m mw x \<and> (x = [] \<longrightarrow> m [] \<le> mw)"
proof (cases "m l \<le> mw")
  case True
  then show ?thesis using assms by (auto simp: lineParts_def fits_def)
next
  case False
  obtain fs b where c: "charLoop m mw (codePoints l) ([], []) = (fs, b)" by force
  have cp: "\<forall>ch \<in> set (codePoints l). codePoints ch = [ch]"
    using codePoints_single by blast
  have ne: "\<forall>ch \<in> set (codePoints l). ch \<noteq> []"
    using codePoints_nonempty by blast
  have inv: "(\<forall>x \<in> set fs. fits m mw x) \<and> (b = [] \<or> fits m mw b)"
    by (rule charLoop_fits [OF cp _ _ c]) simp_all
  have "[] \<notin> set fs" by (rule charLoop_nonempty [OF ne _ c]) simp
  moreover have "lineParts m mw l = (if length b > 0 then fs @ [b] else fs)"
    using False c by (simp add: lineParts_def)
  ultimately show ?thesis using inv assms by (auto split: if_splits)
qed

lemma wrapParagraphs_line:
  assumes "l \<in> set (wrapParagraphs m raw mw)"
  shows "l \<noteq> [] \<and> fits m mw l"
proof -
  from assms obtain x p where x: "x \<in> set (lineParts m mw p)"
    and l: "l = (if x = [] then [0x20] else x)"
    by (auto simp: wrapParagraphs_eq)
  show ?thesis
  proof (cases "x = []")
    case True
    then show ?thesis using l by (simp add: fits_def)
  next
    case False
    then show ?thesis using l lineParts_fits [OF x] by simp
  qed
qed

text \<open>
  Claim C1. Every line returned by \<open>wrapLines\<close> is at most \<open>maxWidth\<close> wide under the
  measurer it was given, or it is a single code point (one step of the character loop)
  that is wider than \<open>maxWidth\<close> by itself. This holds for every text, every measurer and
  every \<open>maxWidth\<close>, positive or not.
\<close>
theorem wrapLines_width:
  assumes "l \<in> set (wrapLines m text maxWidth)"
  shows "m l \<le> maxWidth \<or> (length (codePoints l) = 1 \<and> maxWidth < m l)"
  using wrapParagraphs_line [of l m "paragraphsOf text" maxWidth] assms
  by (auto simp: wrapLines_def fits_def)

section \<open>Blank paragraphs\<close>


lemma lineParts_space: "lineParts m mw [0x20] = [[0x20]]"
  by (simp add: lineParts_def Let_def)

lemma wrapParagraphs_empty: "wrapParagraphs m [[]] mw = [[0x20]]"
  by (simp add: wrapParagraphs_eq paragraphLines_def lineParts_space)

text \<open>
  Claim C8. An empty paragraph contributes exactly one line, a single space, between the
  lines of the paragraphs before it and those after it; the empty text and an absent text
  give exactly that one line; and no returned line is the empty string.
\<close>
theorem wrapLines_blank:
  "(paragraphsOf text = ps @ [] # qs \<longrightarrow>
      wrapLines m text maxWidth =
        wrapParagraphs m ps maxWidth @ [[0x20]] @ wrapParagraphs m qs maxWidth)
   \<and> wrapLines m (Some []) maxWidth = [[0x20]]
   \<and> wrapLines m None maxWidth = [[0x20]]
   \<and> (\<forall>l \<in> set (wrapLines m text maxWidth). l \<noteq> [])"
proof (intro conjI impI ballI)
  assume "paragraphsOf text = ps @ [] # qs"
  then have "wrapLines m text maxWidth = wrapParagraphs m (ps @ [[]] @ qs) maxWidth"
    by (simp add: wrapLines_def)
  then show "wrapLines m text maxWidth =
        wrapParagraphs m ps maxWidth @ [[0x20]] @ wrapParagraphs m qs maxWidth"
    by (simp only: wrapParagraphs_append wrapParagraphs_empty)
next
  show "wrapLines m (Some []) maxWidth = [[0x20]]"
    by (simp add: wrapLines_def paragraphsOf_def wrapParagraphs_empty)
next
  show "wrapLines m None maxWidth = [[0x20]]"
    by (simp add: wrapLines_def paragraphsOf_def wrapParagraphs_empty)
next
  fix l assume "l \<in> set (wrapLines m text maxWidth)"
  then show "l \<noteq> []" using wrapParagraphs_line [of l m "paragraphsOf text" maxWidth]
    by (simp add: wrapLines_def)
qed

section \<open>Content and paragraph structure\<close>

lemma nonWhitespace_append [simp]:
  "nonWhitespace (a @ b) = nonWhitespace a @ nonWhitespace b"
  by (simp add: nonWhitespace_def)

lemma nonWhitespace_Nil [simp]: "nonWhitespace [] = []"
  by (simp add: nonWhitespace_def)







lemma charLoop_content:
  assumes "charLoop m mw chs (fixed, buf) = (fixed', buf')"
  shows "concat fixed' @ buf' = concat fixed @ buf @ concat chs"
  using assms
proof (induction chs arbitrary: fixed buf)
  case Nil
  then show ?case by simp
next
  case (Cons ch chs)
  show ?case
  proof (cases "m (buf @ ch) \<le> mw \<or> length buf = 0")
    case True
    then have "charLoop m mw chs (fixed, buf @ ch) = (fixed', buf')"
      using Cons.prems by (simp add: Let_def)
    from Cons.IH [OF this] show ?thesis by simp
  next
    case False
    then have "charLoop m mw chs (fixed @ [buf], ch) = (fixed', buf')"
      using Cons.prems by (simp add: Let_def)
    from Cons.IH [OF this] show ?thesis by simp
  qed
qed















lemma charLoop_some:
  assumes "charLoop m mw chs (fixed, buf) = (fixed', buf')" and "buf \<noteq> [] \<or> concat chs \<noteq> []"
  shows "fixed' \<noteq> [] \<or> buf' \<noteq> []"
proof -
  have "concat fixed' @ buf' = concat fixed @ buf @ concat chs"
    using charLoop_content [OF assms(1)] .
  then show ?thesis using assms(2) by auto
qed














section \<open>Anchors\<close>

lemma clamp01_range: "0 \<le> clamp01 v \<and> clamp01 v \<le> 1"
  by (cases "Number v") (simp_all add: clamp01_def)

text \<open>
  Claim C6. \<open>clamp01\<close> returns a number in \<open>[0, 1]\<close> for every input: a finite number
  below \<open>0\<close> becomes \<open>0\<close>, one above \<open>1\<close> becomes \<open>1\<close>, one in between is kept; \<open>-0.5\<close>
  gives \<open>0\<close>, \<open>1.7\<close> gives \<open>1\<close>, NaN, both infinities and \<open>undefined\<close> give \<open>0\<close>. The
  interpolation that follows therefore stays between \<open>0\<close> and the canvas dimension.
\<close>
theorem clamp01_clamps:
  "(0 \<le> clamp01 v \<and> clamp01 v \<le> 1)
   \<and> clamp01 (Num (Fin r)) = (if r < 0 then 0 else if 1 < r then 1 else r)
   \<and> clamp01 (Num (Fin (- (1 / 2)))) = 0
   \<and> clamp01 (Num (Fin (17 / 10))) = 1
   \<and> clamp01 (Num NaN) = 0 \<and> clamp01 (Num PosInf) = 0 \<and> clamp01 (Num NegInf) = 0
   \<and> clamp01 Undefined = 0 \<and> clamp01 Null = 0
   \<and> (0 \<le> lerp 0 (real n) (clamp01 v) \<and> lerp 0 (real n) (clamp01 v) \<le> real n)"
proof -
  have r: "0 \<le> clamp01 v \<and> clamp01 v \<le> 1" by (rule clamp01_range)
  then have "0 \<le> real n * clamp01 v \<and> real n * clamp01 v \<le> real n * 1"
    by (simp add: mult_left_le)
  then show ?thesis using r by (simp add: clamp01_def lerp_def)
qed

theorem clamp01_clamps_witness:
  "clamp01 (Num (Fin (3 / 10))) = 3 / 10 \<and> lerp 0 (real (800::nat)) (clamp01 (Num (Fin (17 / 10)))) = 800"
  using clamp01_clamps [of "Num (Fin (17 / 10))" "3 / 10" 800]
  by (simp add: lerp_def)

text \<open>
  Claim C9. With the canvas and its context present and no background image loaded,
  \<open>render\<close> returns normally and its only operation on the context is clearing the whole
  canvas.
\<close>
theorem render_blank:
  assumes "canvases w canvasId = Some cv" and "has2d cv" and "bgImg (st w) = None"
  shows "render pf canvasId opts w = Inr [ClearRect 0 0 (int (width cv)) (int (height cv))]"
  using assms by (simp add: render_def)

section \<open>Shadow\<close>

lemma renderLine_offsets:
  "SetShadowOffsetX v \<notin> set (renderLine opts s cw ch)
   \<and> SetShadowOffsetY v \<notin> set (renderLine opts s cw ch)"
  by (cases "showLine opts"; cases "separatorImg s") (simp_all add: renderLine_def Let_def)

lemma applyShadow_on:
  "applyShadow True off = [SetShadowColor ''rgba(0,0,0,0.75)'', SetShadowBlur 0,
            SetShadowOffsetX off, SetShadowOffsetY off]"
  by (simp add: applyShadow_def)

lemma renderName_offsets:
  assumes "withShadow opts"
  shows "(SetShadowOffsetX v \<in> set (renderName opts family cw ch) \<longrightarrow> v = shadowOffset opts)
       \<and> (SetShadowOffsetY v \<in> set (renderName opts family cw ch) \<longrightarrow> v = shadowOffset opts)"
  using assms by (cases "showName opts") (simp_all add: renderName_def Let_def applyShadow_on)

lemma renderBody_offsets:
  assumes "withShadow opts"
  shows "(SetShadowOffsetX v \<in> set (renderBody pf opts family cw ch) \<longleftrightarrow> v = shadowOffset opts)
       \<and> (SetShadowOffsetY v \<in> set (renderBody pf opts family cw ch) \<longleftrightarrow> v = shadowOffset opts)"
proof -
  have "SetShadowOffsetX v \<notin> set (map (\<lambda>(i, l). FillText l (a i l) (b i l)) xs)
      \<and> SetShadowOffsetY v \<notin> set (map (\<lambda>(i, l). FillText l (a i l) (b i l)) xs)"
    for a b :: "nat \<Rightarrow> jsstring \<Rightarrow> jsnum" and xs
    by (induction xs) auto
  then show ?thesis using assms
    by (simp add: renderBody_def Let_def applyShadow_on eq_commute [of "shadowOffset opts"])
qed

text \<open>
  Claim C10. With \<open>withShadow\<close> set, every shadow offset \<open>render\<close> assigns, horizontal or
  vertical, is \<open>Math.max(0, options.shadowOffsetPx ?? 2)\<close>, and with a background loaded
  both are assigned. For a finite \<open>shadowOffsetPx\<close> that is \<open>max 0\<close> of it, so \<open>0\<close> for a
  negative one; for an absent or \<open>null\<close> one it is \<open>2\<close>.
\<close>
theorem render_shadow_offset:
  assumes "render pf canvasId opts w = Inr ops" and "withShadow opts"
  shows "(\<forall>v. SetShadowOffsetX v \<in> set ops \<or> SetShadowOffsetY v \<in> set ops \<longrightarrow>
            v = jsmax (Fin 0) (Number (nullish (shadowOffsetPx opts) (Num (Fin 2)))))
       \<and> (bgImg (st w) \<noteq> None \<longrightarrow>
            SetShadowOffsetX (shadowOffset opts) \<in> set ops
            \<and> SetShadowOffsetY (shadowOffset opts) \<in> set ops)
       \<and> (shadowOffsetPx opts = Undefined \<or> shadowOffsetPx opts = Null \<longrightarrow>
            shadowOffset opts = Fin 2)
       \<and> (\<forall>r. shadowOffsetPx opts = Num (Fin r) \<longrightarrow>
            shadowOffset opts = Fin (max 0 r) \<and> (r < 0 \<longrightarrow> shadowOffset opts = Fin 0))"
proof -
  obtain cv where cv: "canvases w canvasId = Some cv" and ctx: "has2d cv"
    using assms(1) by (cases "canvases w canvasId") (auto simp: render_def split: if_splits)
  have off: "jsmax (Fin 0) (Number (nullish (shadowOffsetPx opts) (Num (Fin 2)))) = shadowOffset opts"
    by (simp add: shadowOffset_def)
  have d1: "shadowOffsetPx opts = Undefined \<or> shadowOffsetPx opts = Null \<longrightarrow>
            shadowOffset opts = Fin 2"
    by (auto simp: shadowOffset_def)
  have d2: "\<forall>r. shadowOffsetPx opts = Num (Fin r) \<longrightarrow>
            shadowOffset opts = Fin (max 0 r) \<and> (r < 0 \<longrightarrow> shadowOffset opts = Fin 0)"
    by (auto simp: shadowOffset_def)
  show ?thesis
  proof (cases "bgImg (st w)")
    case None
    then have "ops = [ClearRect 0 0 (int (width cv)) (int (height cv))]"
      using assms(1) cv ctx by (simp add: render_def)
    then show ?thesis using None d1 d2 by simp
  next
    case (Some img)
    let ?family = "selectFamily opts (st w)"
    let ?P = "[ClearRect 0 0 (int (width cv)) (int (height cv)),
               DrawImage img 0 0 (int (width cv)) (int (height cv)),
               SetTextAlign ''center'', SetTextBaseline ''alphabetic'', SetFillStyle ''white'']"
    let ?N = "renderName opts ?family (width cv) (height cv)"
    let ?L = "renderLine opts (st w) (width cv) (height cv)"
    let ?B = "renderBody pf opts ?family (width cv) (height cv)"
    have "render pf canvasId opts w = Inr (?P @ ?N @ ?L @ ?B)"
      using cv ctx Some by (simp add: render_def Let_def)
    then have ops: "set ops = set ?P \<union> set ?N \<union> set ?L \<union> set ?B"
      using assms(1) by auto
    have p: "SetShadowOffsetX v \<notin> set ?P \<and> SetShadowOffsetY v \<notin> set ?P" for v
      by simp
    note n = renderName_offsets [OF assms(2), of _ ?family "width cv" "height cv"]
    note l = renderLine_offsets [of _ opts "st w" "width cv" "height cv"]
    note b = renderBody_offsets [OF assms(2), of _ pf ?family "width cv" "height cv"]
    have a1: "\<forall>v. SetShadowOffsetX v \<in> set ops \<or> SetShadowOffsetY v \<in> set ops \<longrightarrow>
            v = shadowOffset opts"
      unfolding ops using p n l b by blast
    have a2: "SetShadowOffsetX (shadowOffset opts) \<in> set ops
            \<and> SetShadowOffsetY (shadowOffset opts) \<in> set ops"
      unfolding ops using b by blast
    show ?thesis unfolding off using a1 a2 d1 d2 by blast
  qed
qed

section \<open>Loaders and disposal\<close>

text \<open>
  Claim C4. When the image does not decode, the font does not load or register, or the
  separator does not load, the loader returns an error; and whenever one of the three
  loaders returns an error, \<open>_state\<close> is what it was before the call.
\<close>
theorem loaders_failure_keeps_state:
  "(decodeImage pf bytes = None \<longrightarrow> isl (fst (setBackgroundImageFromBytes pf canvasId bytes w)))
   \<and> (isl (fst (setBackgroundImageFromBytes pf canvasId bytes w)) \<longrightarrow>
        st (snd (setBackgroundImageFromBytes pf canvasId bytes w)) = st w)
   \<and> (registerFont pf fontBytes familyName \<noteq> FontOk \<longrightarrow>
        isl (fst (loadFontFromBytes pf fontBytes familyName w)))
   \<and> (isl (fst (loadFontFromBytes pf fontBytes familyName w)) \<longrightarrow>
        st (snd (loadFontFromBytes pf fontBytes familyName w)) = st w)
   \<and> (fetchImage pf url = None \<longrightarrow> isl (fst (loadSeparatorImage pf url w)))
   \<and> (isl (fst (loadSeparatorImage pf url w)) \<longrightarrow>
        st (snd (loadSeparatorImage pf url w)) = st w)"
proof (intro conjI impI)
  assume "decodeImage pf bytes = None"
  then show "isl (fst (setBackgroundImageFromBytes pf canvasId bytes w))"
    by (cases "canvases w canvasId")
       (simp_all add: setBackgroundImageFromBytes_def createObjectURL_def)
next
  assume "isl (fst (setBackgroundImageFromBytes pf canvasId bytes w))"
  then show "st (snd (setBackgroundImageFromBytes pf canvasId bytes w)) = st w"
    by (cases "canvases w canvasId"; cases "decodeImage pf bytes")
       (simp_all add: setBackgroundImageFromBytes_def createObjectURL_def Let_def)
next
  assume "registerFont pf fontBytes familyName \<noteq> FontOk"
  then show "isl (fst (loadFontFromBytes pf fontBytes familyName w))"
    by (cases "registerFont pf fontBytes familyName")
       (simp_all add: loadFontFromBytes_def createObjectURL_def)
next
  assume "isl (fst (loadFontFromBytes pf fontBytes familyName w))"
  then show "st (snd (loadFontFromBytes pf fontBytes familyName w)) = st w"
    by (cases "registerFont pf fontBytes familyName")
       (simp_all add: loadFontFromBytes_def createObjectURL_def Let_def)
next
  assume "fetchImage pf url = None"
  then show "isl (fst (loadSeparatorImage pf url w))"
    by (simp add: loadSeparatorImage_def)
next
  assume "isl (fst (loadSeparatorImage pf url w))"
  then show "st (snd (loadSeparatorImage pf url w)) = st w"
    by (cases "fetchImage pf url") (simp_all add: loadSeparatorImage_def)
qed

lemma disposeBackground_eq:
  "disposeBackground w =
     w\<lparr>st := (st w)\<lparr>bgObjectUrl := None, bgImg := None\<rparr>,
       events := events w @ (case bgObjectUrl (st w) of None \<Rightarrow> [] | Some u \<Rightarrow> [RevokeObjectURL u])
                  @ [StoreBgObjectUrl None]\<rparr>"
  by (cases "bgObjectUrl (st w)")
     (simp_all add: disposeBackground_def revokeObjectUrl_def storeBgObjectUrl_def Let_def)

lemma liveUrls_append: "liveUrls (evs @ es) = foldl liveStep (liveUrls evs) es"
  by (simp add: liveUrls_def)

lemma storedUrls_append: "storedUrls (evs @ es) = foldl storedStep (storedUrls evs) es"
  by (simp add: storedUrls_def)

text \<open>
  Claim C7. \<open>disposeBackground\<close> has no error result. Calling it twice leaves the same
  \<open>_state\<close> as calling it once, with image and URL both cleared. The first call revokes
  the stored URL if there is one; the second call revokes nothing: it only stores
  \<open>null\<close> again, and the live object URLs, the canvases, the fonts and the URL counter
  are as after the first call.
\<close>
theorem disposeBackground_idempotent:
  "st (disposeBackground (disposeBackground w)) = st (disposeBackground w)
   \<and> bgImg (st (disposeBackground w)) = None
   \<and> bgObjectUrl (st (disposeBackground w)) = None
   \<and> events (disposeBackground w) =
       events w @ (case bgObjectUrl (st w) of None \<Rightarrow> [] | Some u \<Rightarrow> [RevokeObjectURL u])
         @ [StoreBgObjectUrl None]
   \<and> events (disposeBackground (disposeBackground w)) =
       events (disposeBackground w) @ [StoreBgObjectUrl None]
   \<and> liveUrls (events (disposeBackground (disposeBackground w))) =
       liveUrls (events (disposeBackground w))
   \<and> canvases (disposeBackground (disposeBackground w)) = canvases (disposeBackground w)
   \<and> fonts (disposeBackground (disposeBackground w)) = fonts (disposeBackground w)
   \<and> nextUrl (disposeBackground (disposeBackground w)) = nextUrl (disposeBackground w)"
proof -
  have twice: "events (disposeBackground (disposeBackground w)) =
       events (disposeBackground w) @ [StoreBgObjectUrl None]"
    by (simp add: disposeBackground_eq [of "disposeBackground w"])
       (simp add: disposeBackground_eq [of w])
  have "liveUrls (events (disposeBackground (disposeBackground w))) =
       liveUrls (events (disposeBackground w))"
    unfolding twice by (simp add: liveUrls_append)
  moreover have "st (disposeBackground (disposeBackground w)) = st (disposeBackground w)"
    by (simp add: disposeBackground_eq [of "disposeBackground w"])
       (simp add: disposeBackground_eq [of w])
  ultimately show ?thesis using twice
    by (simp add: disposeBackground_eq [of "disposeBackground w"])
       (simp add: disposeBackground_eq [of w])
qed

text \<open>
  Claim C5. A background handle is an object URL that is or was stored in
  \<open>_state.bgObjectUrl\<close>. Let background A be loaded with handle \<open>a\<close>, the only live
  background handle, and let the browser's next URL be one that was never stored. Let the
  image B that the bytes decode to report a zero \<open>width\<close> or \<open>height\<close> whenever the natural
  one is zero (an image element outside the document reports its natural size). Then
  \<open>setBackgroundImageFromBytes\<close> succeeds; after creating B's URL it revokes exactly one
  URL, \<open>a\<close>, and only then stores B's; the canvas gets B's natural width and height; and
  at every point of the call at most one background handle is live, B's at the end.
\<close>
theorem setBackground_replaces:
  assumes cv: "canvases w canvasId = Some cv"
    and dec: "decodeImage pf bytes = Some imgB"
    and a: "bgObjectUrl (st w) = Some a"
    and live: "liveBgHandles (events w) = {a}"
    and fresh: "nextUrl w \<notin> storedUrls (events w)"
    and zw: "naturalWidth imgB = 0 \<longrightarrow> layoutWidth imgB = 0"
    and zh: "naturalHeight imgB = 0 \<longrightarrow> layoutHeight imgB = 0"
    and res: "setBackgroundImageFromBytes pf canvasId bytes w = (r, w')"
  shows "r = Inr ()
    \<and> events w' = events w @ [CreateObjectURL (nextUrl w), RevokeObjectURL a,
                               StoreBgObjectUrl (Some (nextUrl w))]
    \<and> bgObjectUrl (st w') = Some (nextUrl w) \<and> bgImg (st w') = Some imgB
    \<and> canvases w' canvasId =
         Some (cv\<lparr>width := naturalWidth imgB, height := naturalHeight imgB\<rparr>)
    \<and> (\<forall>evs. prefix (events w) evs \<and> prefix evs (events w') \<longrightarrow> card (liveBgHandles evs) \<le> 1)
    \<and> liveBgHandles (events w') = {nextUrl w}"
proof -
  let ?b = "nextUrl w"
  let ?new = "[CreateObjectURL ?b, RevokeObjectURL a, StoreBgObjectUrl (Some ?b)]"
  have w': "w' = w\<lparr>nextUrl := Suc ?b, events := events w @ ?new,
                    st := (st w)\<lparr>bgObjectUrl := Some ?b, bgImg := Some imgB\<rparr>,
                    canvases := (canvases w)(canvasId \<mapsto>
                      cv\<lparr>width := (if naturalWidth imgB \<noteq> 0 then naturalWidth imgB else layoutWidth imgB),
                         height := (if naturalHeight imgB \<noteq> 0 then naturalHeight imgB else layoutHeight imgB)\<rparr>)\<rparr>"
    and r: "r = Inr ()"
    using res cv dec a
    by (simp_all add: setBackgroundImageFromBytes_def createObjectURL_def revokeObjectUrl_def
        storeBgObjectUrl_def Let_def)
  have dims: "(if naturalWidth imgB \<noteq> 0 then naturalWidth imgB else layoutWidth imgB) = naturalWidth imgB"
    "(if naturalHeight imgB \<noteq> 0 then naturalHeight imgB else layoutHeight imgB) = naturalHeight imgB"
    using zw zh by auto
  have ev: "events w' = events w @ ?new" by (simp add: w')
  let ?L = "liveUrls (events w)"
  let ?S = "storedUrls (events w)"
  have "?L \<inter> ?S = {a}" using live by (simp add: liveBgHandles_def)
  then have aL: "a \<in> ?L" and aS: "a \<in> ?S" and only: "\<And>x. x \<in> ?L \<Longrightarrow> x \<in> ?S \<Longrightarrow> x = a"
    by (blast+)
  have ab: "a \<noteq> ?b" using aS fresh by metis
  have s0: "liveBgHandles (events w) = {a}" by (rule live)
  have "insert ?b ?L \<inter> ?S = {a}"
  proof (rule set_eqI)
    fix x show "x \<in> insert ?b ?L \<inter> ?S \<longleftrightarrow> x \<in> {a}"
      using aL aS only [of x] fresh by (cases "x = ?b") auto
  qed
  then have s1: "liveBgHandles (events w @ [CreateObjectURL ?b]) = {a}"
    by (simp add: liveBgHandles_def liveUrls_append storedUrls_append)
  have "(insert ?b ?L - {a}) \<inter> ?S = {}"
  proof (rule set_eqI)
    fix x show "x \<in> (insert ?b ?L - {a}) \<inter> ?S \<longleftrightarrow> x \<in> {}"
      using only [of x] fresh by (cases "x = ?b") auto
  qed
  then have s2: "liveBgHandles (events w @ [CreateObjectURL ?b, RevokeObjectURL a]) = {}"
    by (simp add: liveBgHandles_def liveUrls_append storedUrls_append)
  have "(insert ?b ?L - {a}) \<inter> insert ?b ?S = {?b}"
  proof (rule set_eqI)
    fix x show "x \<in> (insert ?b ?L - {a}) \<inter> insert ?b ?S \<longleftrightarrow> x \<in> {?b}"
      using only [of x] ab by (cases "x = ?b") auto
  qed
  then have s3: "liveBgHandles (events w @ ?new) = {?b}"
    by (simp add: liveBgHandles_def liveUrls_append storedUrls_append)
  have pre: "card (liveBgHandles evs) \<le> 1"
    if p1: "prefix (events w) evs" and p2: "prefix evs (events w')" for evs
  proof -
    from p1 obtain q where q: "evs = events w @ q" by (auto simp: prefix_def)
    then have "prefix q ?new" using p2 ev by simp
    then have "q = [] \<or> q = [CreateObjectURL ?b] \<or> q = [CreateObjectURL ?b, RevokeObjectURL a]
        \<or> q = ?new"
      by (auto simp: prefix_Cons)
    then show ?thesis using q s0 s1 s2 s3 by auto
  qed
  have w2: "w' = w\<lparr>nextUrl := Suc ?b, events := events w @ ?new,
                    st := (st w)\<lparr>bgObjectUrl := Some ?b, bgImg := Some imgB\<rparr>,
                    canvases := (canvases w)(canvasId \<mapsto>
                      cv\<lparr>width := naturalWidth imgB, height := naturalHeight imgB\<rparr>)\<rparr>"
    using w' by (simp only: dims)
  have fields: "bgObjectUrl (st w') = Some ?b \<and> bgImg (st w') = Some imgB
      \<and> canvases w' canvasId = Some (cv\<lparr>width := naturalWidth imgB, height := naturalHeight imgB\<rparr>)"
    by (simp add: w2)
  have all: "\<forall>evs. prefix (events w) evs \<and> prefix evs (events w') \<longrightarrow> card (liveBgHandles evs) \<le> 1"
    using pre by blast
  have last: "liveBgHandles (events w') = {?b}" using s3 ev by simp
  show ?thesis using r ev fields all last by blast
qed

section \<open>Separator anchor\<close>

text \<open>
  With finite name anchors the separator is drawn 552 by 8 at the clamped offsets
  \<open>x - 0.25\<close> and \<open>y + 0.025\<close>. With \<open>nameY01\<close> absent it is drawn in row \<open>0\<close> on every
  canvas, while the name is drawn at the default \<open>0.80\<close> of the height.
\<close>

lemma renderLine_supplied:
  assumes "separatorImg s = Some img" and "showLine opts"
    and "nameX01 opts = Num (Fin x)" and "nameY01 opts = Num (Fin y)"
  shows "renderLine opts s cw ch =
     [Save, SetShadowColor ''transparent'', SetGlobalAlpha 1,
      DrawImage img (round_half_up (lerp 0 (real cw) (clamp01 (Num (Fin (x - 1 / 4))))))
        (round_half_up (lerp 0 (real ch) (clamp01 (Num (Fin (y + 1 / 40)))))) 552 8,
      Restore]"
  using assms by (simp add: renderLine_def Let_def jssub_def)

lemma renderLine_absent:
  assumes "separatorImg s = Some img" and "showLine opts" and "nameY01 opts = Undefined"
  shows "\<exists>barX. renderLine opts s cw ch =
     [Save, SetShadowColor ''transparent'', SetGlobalAlpha 1,
      DrawImage img barX 0 552 8, Restore]"
  using assms by (simp add: renderLine_def Let_def clamp01_def lerp_def round_half_up_def)

lemma renderName_absent:
  assumes "showName opts" and "nameY01 opts = Undefined"
  shows "\<exists>ops t nameX. renderName opts family cw ch =
     ops @ [FillText t nameX (Fin (of_int (round_half_up (real ch * (4 / 5)))))]"
  using assms by (simp add: renderName_def Let_def clamp01_def lerp_def)

section \<open>Concrete runs\<close>

lemma worldA_eq:
  "worldA = \<lparr>st = initialState\<lparr>bgObjectUrl := Some 0, bgImg := Some imageA\<rparr>,
      canvases = (\<lambda>i. if i = ''card'' then Some exampleCanvas else None)
        (''card'' \<mapsto> \<lparr>width = 800, height = 600, has2d = True\<rparr>),
      fonts = [], nextUrl = 1,
      events = [CreateObjectURL 0, StoreBgObjectUrl (Some 0)]\<rparr>"
  by (simp add: worldA_def emptyWorld_def setBackgroundImageFromBytes_def examplePlatform_def
      createObjectURL_def revokeObjectUrl_def storeBgObjectUrl_def initialState_def
      exampleCanvas_def imageA_def Let_def)

lemma worldAS_eq:
  "worldAS = worldA\<lparr>st := (st worldA)\<lparr>separatorImg := Some separatorImage\<rparr>\<rparr>"
  by (simp add: worldAS_def loadSeparatorImage_def examplePlatform_def)

lemma body_blank: "wrapLines monoWidth (Some []) 800 = [[0x20]]"
  by (simp add: wrapLines_def paragraphsOf_def wrapParagraphs_def splitWs.simps isWhiteSpace_def
      monoWidth_def Let_def isHighSurrogate_def isLowSurrogate_def trimEnd_def trimStart_def)

text \<open>
  Claim C3, at an input where the code departs from it. Background A (800 by 600) and the
  separator are loaded, and the options give neither \<open>nameX01\<close> nor \<open>nameY01\<close>. The name is
  drawn at the default anchor, pixel \<open>(160, 480)\<close>, and the separator is drawn 552 by 8,
  but at pixel \<open>(0, 0)\<close>: \<open>undefined + 0.025\<close> is NaN, \<open>??\<close> keeps it and \<open>clamp01\<close> turns
  it into \<open>0\<close>. The anchor derived from the default \<open>0.80\<close> would be row 495.
\<close>
theorem separator_misses_name_default:
  "render examplePlatform ''card'' exampleOptions worldAS =
     Inr [ClearRect 0 0 800 600, DrawImage imageA 0 0 800 600,
          SetTextAlign ''center'', SetTextBaseline ''alphabetic'', SetFillStyle ''white'',
          SetFont (Fin 56) (lit ''sans-serif''),
          SetShadowColor ''rgba(0,0,0,0.75)'', SetShadowBlur 0,
          SetShadowOffsetX (Fin 0), SetShadowOffsetY (Fin 0),
          FillText [0x41] (Fin 160) (Fin 480),
          Save, SetShadowColor ''transparent'', SetGlobalAlpha 1,
          DrawImage separatorImage 0 0 552 8, Restore,
          SetFont (Fin 50) (lit ''sans-serif''),
          SetShadowColor ''rgba(0,0,0,0.75)'', SetShadowBlur 0,
          SetShadowOffsetX (Fin 0), SetShadowOffsetY (Fin 0),
          FillText [0x20] (Fin 160) (Fin 480)]
   \<and> round_half_up (lerp 0 600 (clamp01 (Num (Fin (4 / 5 + 1 / 40))))) = 495"
  by (simp add: render_def worldAS_eq worldA_eq exampleOptions_def initialState_def
      renderName_def renderLine_def renderBody_def selectFamily_def truthy_def shadowOffset_def
      applyShadow_def clamp01_def lerp_def round_half_up_def jssub_def examplePlatform_def
      body_blank Let_def enumerate_eq_zip)

lemma narrow_ab: "wrapLines monoWidth (Some [0x61, 0x62]) 5 = [[0x61], [0x62]]"
  by (simp add: wrapLines_def paragraphsOf_def wrapParagraphs_def splitWs.simps isWhiteSpace_def
      monoWidth_def Let_def isHighSurrogate_def isLowSurrogate_def trimEnd_def trimStart_def)

theorem wrapLines_width_witness:
  "[0x61] \<in> set (wrapLines monoWidth (Some [0x61, 0x62]) 5)
   \<and> length (codePoints [0x61]) = 1 \<and> 5 < monoWidth [0x61]"
proof -
  have mem: "[0x61] \<in> set (wrapLines monoWidth (Some [0x61, 0x62]) 5)"
    by (simp add: narrow_ab)
  from wrapLines_width [OF mem] show ?thesis using mem by (simp add: monoWidth_def)
qed


theorem wrapLines_blank_witness:
  "paragraphsOf (Some [0x61, 0x0A, 0x0A, 0x62]) = [[0x61]] @ [] # [[0x62]]
   \<and> wrapLines monoWidth (Some [0x61, 0x0A, 0x0A, 0x62]) 30 =
       wrapParagraphs monoWidth [[0x61]] 30 @ [[0x20]] @ wrapParagraphs monoWidth [[0x62]] 30
   \<and> wrapLines monoWidth (Some []) 30 = [[0x20]]"
proof -
  have p: "paragraphsOf (Some [0x61, 0x0A, 0x0A, 0x62]) = [[0x61]] @ [] # [[0x62]]"
    by (simp add: paragraphsOf_def)
  show ?thesis
    using p wrapLines_blank [of "Some [0x61, 0x0A, 0x0A, 0x62]" "[[0x61]]" "[[0x62]]" monoWidth 30]
    by simp
qed

theorem loaders_failure_keeps_state_witness:
  "decodeImage examplePlatform [7] = None
   \<and> isl (fst (setBackgroundImageFromBytes examplePlatform ''card'' [7] worldA))
   \<and> st (snd (setBackgroundImageFromBytes examplePlatform ''card'' [7] worldA)) = st worldA
   \<and> registerFont examplePlatform [] [0x46] \<noteq> FontOk
   \<and> st (snd (loadFontFromBytes examplePlatform [] [0x46] worldA)) = st worldA
   \<and> fetchImage examplePlatform ''gone.png'' = None
   \<and> st (snd (loadSeparatorImage examplePlatform ''gone.png'' worldA)) = st worldA"
proof -
  have "decodeImage examplePlatform [7] = None"
    and "registerFont examplePlatform [] [0x46] \<noteq> FontOk"
    and "fetchImage examplePlatform ''gone.png'' = None"
    by (simp_all add: examplePlatform_def)
  then show ?thesis
    using loaders_failure_keeps_state
      [of examplePlatform "[7]" "''card''" worldA "[]" "[0x46]" "''gone.png''"]
    by simp
qed

theorem setBackground_replaces_witness:
  "liveBgHandles (events worldA) = {0}
   \<and> events (snd (setBackgroundImageFromBytes examplePlatform ''card'' [2] worldA)) =
       events worldA @ [CreateObjectURL 1, RevokeObjectURL 0, StoreBgObjectUrl (Some 1)]
   \<and> canvases (snd (setBackgroundImageFromBytes examplePlatform ''card'' [2] worldA)) ''card'' =
       Some \<lparr>width = 1024, height = 768, has2d = True\<rparr>
   \<and> liveBgHandles (events (snd (setBackgroundImageFromBytes examplePlatform ''card'' [2] worldA))) = {1}"
proof -
  obtain r w' where res: "setBackgroundImageFromBytes examplePlatform ''card'' [2] worldA = (r, w')"
    by force
  have cv: "canvases worldA ''card'' = Some \<lparr>width = 800, height = 600, has2d = True\<rparr>"
    by (simp add: worldA_eq)
  have dec: "decodeImage examplePlatform [2] = Some imageB"
    by (simp add: examplePlatform_def)
  have a: "bgObjectUrl (st worldA) = Some 0" by (simp add: worldA_eq)
  have live: "liveBgHandles (events worldA) = {0}"
    by (simp add: worldA_eq liveBgHandles_def liveUrls_def storedUrls_def)
  have fresh: "nextUrl worldA \<notin> storedUrls (events worldA)"
    by (simp add: worldA_eq storedUrls_def)
  have zw: "naturalWidth imageB = 0 \<longrightarrow> layoutWidth imageB = 0"
    and zh: "naturalHeight imageB = 0 \<longrightarrow> layoutHeight imageB = 0"
    by (simp_all add: imageB_def)
  have n: "nextUrl worldA = 1" by (simp add: worldA_eq)
  have sw: "snd (setBackgroundImageFromBytes examplePlatform ''card'' [2] worldA) = w'"
    by (simp add: res)
  note t = setBackground_replaces [OF cv dec a live fresh zw zh res]
  from t have e: "events w' =
      events worldA @ [CreateObjectURL 1, RevokeObjectURL 0, StoreBgObjectUrl (Some 1)]"
    unfolding n by blast
  from t have "canvases w' ''card'' =
      Some (\<lparr>width = 800, height = 600, has2d = True\<rparr>
              \<lparr>width := naturalWidth imageB, height := naturalHeight imageB\<rparr>)"
    by blast
  then have c: "canvases w' ''card'' = Some \<lparr>width = 1024, height = 768, has2d = True\<rparr>"
    by (simp add: imageB_def)
  from t have l: "liveBgHandles (events w') = {1}" unfolding n by blast
  show ?thesis unfolding sw using live e c l by blast
qed

theorem disposeBackground_idempotent_witness:
  "st (disposeBackground (disposeBackground worldA)) = st (disposeBackground worldA)
   \<and> events (disposeBackground (disposeBackground worldA)) =
       [CreateObjectURL 0, StoreBgObjectUrl (Some 0), RevokeObjectURL 0,
        StoreBgObjectUrl None, StoreBgObjectUrl None]"
  using disposeBackground_idempotent [of worldA] by (simp add: worldA_eq)

theorem render_blank_witness:
  "canvases emptyWorld ''card'' = Some exampleCanvas \<and> has2d exampleCanvas
   \<and> bgImg (st emptyWorld) = None
   \<and> render examplePlatform ''card'' exampleOptions emptyWorld = Inr [ClearRect 0 0 300 150]"
proof -
  have c: "canvases emptyWorld ''card'' = Some exampleCanvas" by (simp add: emptyWorld_def)
  have h: "has2d exampleCanvas" by (simp add: exampleCanvas_def)
  have b: "bgImg (st emptyWorld) = None" by (simp add: emptyWorld_def initialState_def)
  from render_blank [OF c h b, of examplePlatform exampleOptions]
  show ?thesis using c h b by (simp add: exampleCanvas_def)
qed

theorem render_shadow_offset_witness:
  "withShadow exampleOptions \<and> shadowOffsetPx exampleOptions = Num (Fin (- 3))
   \<and> (\<exists>ops. render examplePlatform ''card'' exampleOptions worldA = Inr ops
          \<and> SetShadowOffsetX (Fin 0) \<in> set ops \<and> SetShadowOffsetY (Fin 0) \<in> set ops)"
proof -
  obtain ops where r: "render examplePlatform ''card'' exampleOptions worldA = Inr ops"
    by (simp add: render_def worldA_eq Let_def)
  have s: "withShadow exampleOptions" and p: "shadowOffsetPx exampleOptions = Num (Fin (- 3))"
    by (simp_all add: exampleOptions_def)
  have b: "bgImg (st worldA) \<noteq> None" by (simp add: worldA_eq)
  from render_shadow_offset [OF r s] b p
  have "SetShadowOffsetX (Fin 0) \<in> set ops \<and> SetShadowOffsetY (Fin 0) \<in> set ops"
    by (simp add: shadowOffset_def)
  then show ?thesis using r s p by blast
qed

end
